theory Spec2Isabelle
  imports Complex_Main
begin

section \<open>Values shared by the whole pipeline\<close>

text \<open>
  The exceptions the pipeline can meet.  \<open>HttpError\<close> is the only one the metadata
  resolver retries on; every other one stands for a member of Python's \<open>Exception\<close>
  class raised by the standard library or by an external capability.
\<close>

datatype exn = HttpError | KeyError | IndexError | ZeroDivisionError | OSError | OtherError

text \<open>
  Python floats are modelled as rationals (products and quotients are taken exactly).
  \<open>int(x)\<close> on a float truncates toward zero; \<open>a / b\<close> raises on a zero divisor.
\<close>

definition py_int :: "rat \<Rightarrow> int" where
  "py_int x = (if 0 \<le> x then \<lfloor>x\<rfloor> else \<lceil>x\<rceil>)"

definition py_div :: "rat \<Rightarrow> rat \<Rightarrow> exn + rat" where
  "py_div a b = (if b = 0 then Inl ZeroDivisionError else Inr (a / b))"

text \<open>\<open>range(a, b)\<close> over the integers.\<close>

definition py_range :: "int \<Rightarrow> int \<Rightarrow> int list" where
  "py_range a b = [a..b - 1]"

section \<open>Faces, frames and video sources\<close>

text \<open>
  A face embedding is a numeric vector.  A detected face is its bounding box, in the
  order \<open>(top, right, bottom, left)\<close> of \<open>face_locations\<close>, together with what
  \<open>face_encodings\<close> returns for that box.
\<close>

type_synonym encoding = "rat list"

record face =
  box_top :: int
  box_right :: int
  box_bottom :: int
  box_left :: int
  box_encodings :: "encoding list"

text \<open>
  A frame is abstracted to what the pipeline reads from its pixels: the variance of the
  Laplacian of its grayscale version, the standard deviation of its grayscale version, and
  the outcome of face detection on it (\<open>Inl\<close> when the conversion or the detector raises).
\<close>

record frame =
  laplacian_var :: rat
  gray_std :: rat
  frame_faces :: "exn + face list"

text \<open>
  What an opened \<open>cv2.VideoCapture\<close> exposes: the two properties read with \<open>cap.get\<close>
  and, for a position \<open>p\<close>, the outcome of \<open>cap.set(CAP_PROP_POS_FRAMES, p)\<close> followed
  by \<open>cap.read()\<close> (\<open>None\<close> when \<open>ret\<close> is false).
\<close>

record video_source =
  cap_fps :: rat
  cap_frame_count :: rat
  cap_read :: "int \<Rightarrow> frame option"

section \<open>Quality scorer\<close>

definition is_frame_blurry :: "frame \<Rightarrow> rat \<Rightarrow> bool" where
  "is_frame_blurry fr threshold = (laplacian_var fr < threshold)"

definition has_low_contrast :: "frame \<Rightarrow> rat \<Rightarrow> bool" where
  "has_low_contrast fr threshold = (gray_std fr < threshold)"

section \<open>Frame selector\<close>

text \<open>The variables the \<open>while\<close> loop of \<open>extract_frames\<close> updates.\<close>

record scan_state =
  frame_count :: int
  frames :: "frame list"
  timestamps :: "rat list"

text \<open>The positions the inner \<open>for\<close> loop visits around a target frame.\<close>

definition window_positions :: "int \<Rightarrow> int \<Rightarrow> int \<Rightarrow> int list" where
  "window_positions total_frames look_around_frames target_frame =
     (let start_pos = max 0 (target_frame - look_around_frames);
          end_pos = min total_frames (target_frame + look_around_frames + 1)
      in py_range start_pos end_pos)"

text \<open>
  The inner \<open>for\<close> loop: the triple is \<open>(best_frame, best_laplacian, best_frame_pos)\<close>;
  a position that cannot be read is passed over.
\<close>

fun best_in_window ::
  "(int \<Rightarrow> frame option) \<Rightarrow> int list \<Rightarrow> frame option \<times> rat \<times> int \<Rightarrow> frame option \<times> rat \<times> int"
where
  "best_in_window rd [] best = best"
| "best_in_window rd (pos # ps) (best_frame, best_laplacian, best_frame_pos) =
     (case rd pos of
        None \<Rightarrow> best_in_window rd ps (best_frame, best_laplacian, best_frame_pos)
      | Some fr \<Rightarrow>
          if laplacian_var fr > best_laplacian
          then best_in_window rd ps (Some fr, laplacian_var fr, pos)
          else best_in_window rd ps (best_frame, best_laplacian, best_frame_pos))"

text \<open>
  The quality gate on the window's best frame.  The two skip branches format
  \<open>target_frame/fps\<close> into their log message and the accepting branch computes
  \<open>best_frame_pos / fps\<close>, so each of them raises when the frame rate is zero.
\<close>

definition gate_best ::
  "rat \<Rightarrow> int \<Rightarrow> frame option \<times> rat \<times> int \<Rightarrow> scan_state \<Rightarrow> exn + scan_state"
where
  "gate_best fps target_frame best s =
     (case best of
        (None, _, _) \<Rightarrow> Inr s
      | (Some best_frame, _, best_frame_pos) \<Rightarrow>
          if is_frame_blurry best_frame 150
          then (case py_div (of_int target_frame) fps of Inl e \<Rightarrow> Inl e | Inr _ \<Rightarrow> Inr s)
          else if has_low_contrast best_frame 30
          then (case py_div (of_int target_frame) fps of Inl e \<Rightarrow> Inl e | Inr _ \<Rightarrow> Inr s)
          else (case py_div (of_int best_frame_pos) fps of
                  Inl e \<Rightarrow> Inl e
                | Inr t \<Rightarrow> Inr (s\<lparr>frames := frames s @ [best_frame],
                                   timestamps := timestamps s @ [t]\<rparr>)))"

text \<open>
  One pass through the body of the \<open>while\<close> loop.  \<open>Inr (False, s)\<close> is the
  \<open>break\<close> taken when the target frame cannot be read, \<open>Inr (True, s')\<close> the normal end
  of the body, \<open>Inl e\<close> an exception.
\<close>

definition scan_body ::
  "video_source \<Rightarrow> int \<Rightarrow> int \<Rightarrow> int \<Rightarrow> scan_state \<Rightarrow> exn + bool \<times> scan_state"
where
  "scan_body v frame_interval look_around_frames total_frames s =
     (let target_frame = frame_count s in
      case cap_read v target_frame of
        None \<Rightarrow> Inr (False, s)
      | Some _ \<Rightarrow>
          (case gate_best (cap_fps v) target_frame
                  (best_in_window (cap_read v)
                     (window_positions total_frames look_around_frames target_frame)
                     (None, - 1, target_frame)) s of
             Inl e \<Rightarrow> Inl e
           | Inr s' \<Rightarrow> Inr (True, s'\<lparr>frame_count := frame_count s' + frame_interval\<rparr>)))"

text \<open>The \<open>while\<close> loop; \<open>None\<close> is a loop that never ends.\<close>

partial_function (option) scan_loop ::
  "video_source \<Rightarrow> int \<Rightarrow> int \<Rightarrow> int \<Rightarrow> scan_state \<Rightarrow> (exn + scan_state) option"
where
  "scan_loop v frame_interval look_around_frames total_frames s =
     (if frame_count s < total_frames
      then (case scan_body v frame_interval look_around_frames total_frames s of
              Inl e \<Rightarrow> Some (Inl e)
            | Inr (continue, s') \<Rightarrow>
                if continue
                then scan_loop v frame_interval look_around_frames total_frames s'
                else Some (Inr s'))
      else Some (Inr s))"

declare scan_loop.simps [code]

text \<open>
  \<open>extract_frames\<close> on an opened video: any exception inside the \<open>try\<close> block yields
  the pair of empty lists.
\<close>

definition extract_frames :: "video_source \<Rightarrow> rat \<Rightarrow> rat \<Rightarrow> (frame list \<times> rat list) option" where
  "extract_frames v interval look_around =
     (let fps = cap_fps v;
          frame_interval = py_int (fps * interval);
          look_around_frames = py_int (fps * look_around);
          total_frames = py_int (cap_frame_count v)
      in case scan_loop v frame_interval look_around_frames total_frames
                \<lparr>frame_count = 0, frames = [], timestamps = []\<rparr> of
           None \<Rightarrow> None
         | Some (Inl e) \<Rightarrow> Some ([], [])
         | Some (Inr s) \<Rightarrow> Some (frames s, timestamps s))"

section \<open>Face matcher\<close>

text \<open>
  \<open>compare_faces\<close> of the face-recognition library marks the gallery entries whose
  Euclidean distance to the probe is at most the tolerance.  The comparison is made on
  squares, which is the same for a non-negative tolerance.
\<close>

definition sq_distance :: "encoding \<Rightarrow> encoding \<Rightarrow> rat" where
  "sq_distance a b = sum_list (map (\<lambda>(x, y). (x - y) * (x - y)) (zip a b))"

definition within_tolerance :: "encoding \<Rightarrow> encoding \<Rightarrow> rat \<Rightarrow> bool" where
  "within_tolerance k e tolerance = (sq_distance k e \<le> tolerance * tolerance)"

definition compare_faces :: "encoding list \<Rightarrow> encoding \<Rightarrow> rat \<Rightarrow> bool list" where
  "compare_faces known_face_encodings face_encoding tolerance =
     map (\<lambda>k. within_tolerance k face_encoding tolerance) known_face_encodings"

text \<open>\<open>xs.index(x)\<close>, used only where \<open>x in xs\<close> has been tested.\<close>

fun py_index :: "'a \<Rightarrow> 'a list \<Rightarrow> nat" where
  "py_index x [] = 0"
| "py_index x (y # ys) = (if y = x then 0 else Suc (py_index x ys))"

text \<open>
  What the matcher does besides returning: the calls to \<open>face_encodings\<close> (with the box
  they are made for) and the log line naming the matched identity.
\<close>

datatype event = EncodingsComputed "int \<times> int \<times> int \<times> int" | MatchReported string

definition face_box :: "face \<Rightarrow> int \<times> int \<times> int \<times> int" where
  "face_box f = (box_top f, box_right f, box_bottom f, box_left f)"

definition too_small :: "face \<Rightarrow> bool" where
  "too_small f = (box_right f - box_left f < 40 \<or> box_bottom f - box_top f < 40)"

text \<open>
  The loop over the encodings of one box: \<open>Inr (Some name)\<close> at the first encoding with a
  match, \<open>Inl IndexError\<close> when the name list is too short for the matched index.
\<close>

fun match_face_encodings ::
  "encoding list \<Rightarrow> string list \<Rightarrow> encoding list \<Rightarrow> exn + string option"
where
  "match_face_encodings known_face_encodings known_face_names [] = Inr None"
| "match_face_encodings known_face_encodings known_face_names (face_encoding # rest) =
     (let matches = compare_faces known_face_encodings face_encoding (9 / 20) in
      if True \<in> set matches
      then (let match_index = py_index True matches in
            if match_index < length known_face_names
            then Inr (Some (known_face_names ! match_index))
            else Inl IndexError)
      else match_face_encodings known_face_encodings known_face_names rest)"

text \<open>The loop over the detected boxes, shared by the image and the frame matcher.\<close>

fun scan_face_locations ::
  "encoding list \<Rightarrow> string list \<Rightarrow> face list \<Rightarrow> event list \<Rightarrow> (exn + bool) \<times> event list"
where
  "scan_face_locations known_face_encodings known_face_names [] tr = (Inr False, tr)"
| "scan_face_locations known_face_encodings known_face_names (f # fs) tr =
     (if too_small f
      then scan_face_locations known_face_encodings known_face_names fs tr
      else (case match_face_encodings known_face_encodings known_face_names (box_encodings f) of
              Inl e \<Rightarrow> (Inl e, tr @ [EncodingsComputed (face_box f)])
            | Inr (Some name) \<Rightarrow>
                (Inr True, tr @ [EncodingsComputed (face_box f), MatchReported name])
            | Inr None \<Rightarrow>
                scan_face_locations known_face_encodings known_face_names fs
                  (tr @ [EncodingsComputed (face_box f)])))"

text \<open>
  A downloaded image is abstracted to the outcome of converting it and detecting faces on
  it; \<open>None\<close> is Python's \<open>None\<close>.
\<close>

type_synonym image = "exn + face list"

definition detect_known_faces_in_image ::
  "image option \<Rightarrow> encoding list \<Rightarrow> string list \<Rightarrow> bool \<times> event list"
where
  "detect_known_faces_in_image img known_face_encodings known_face_names =
     (case img of
        None \<Rightarrow> (False, [])
      | Some (Inl e) \<Rightarrow> (False, [])
      | Some (Inr face_locations) \<Rightarrow>
          if face_locations = [] then (False, [])
          else (case scan_face_locations known_face_encodings known_face_names face_locations [] of
                  (Inl e, tr) \<Rightarrow> (False, tr)
                | (Inr found, tr) \<Rightarrow> (found, tr)))"

fun scan_frames ::
  "encoding list \<Rightarrow> string list \<Rightarrow> (frame \<times> rat) list \<Rightarrow> event list \<Rightarrow> (exn + bool) \<times> event list"
where
  "scan_frames known_face_encodings known_face_names [] tr = (Inr False, tr)"
| "scan_frames known_face_encodings known_face_names ((fr, timestamp) # rest) tr =
     (if is_frame_blurry fr 150
      then scan_frames known_face_encodings known_face_names rest tr
      else if has_low_contrast fr 30
      then scan_frames known_face_encodings known_face_names rest tr
      else (case frame_faces fr of
              Inl e \<Rightarrow> (Inl e, tr)
            | Inr face_locations \<Rightarrow>
                if face_locations = []
                then scan_frames known_face_encodings known_face_names rest tr
                else (case scan_face_locations known_face_encodings known_face_names
                             face_locations tr of
                        (Inr False, tr') \<Rightarrow>
                          scan_frames known_face_encodings known_face_names rest tr'
                      | (r, tr') \<Rightarrow> (r, tr'))))"

definition detect_known_faces_in_frames ::
  "frame list \<Rightarrow> rat list \<Rightarrow> encoding list \<Rightarrow> string list \<Rightarrow> bool \<times> event list"
where
  "detect_known_faces_in_frames frs tss known_face_encodings known_face_names =
     (case scan_frames known_face_encodings known_face_names (zip frs tss) [] of
        (Inl e, tr) \<Rightarrow> (False, tr)
      | (Inr found, tr) \<Rightarrow> (found, tr))"

section \<open>Known-face gallery loader\<close>

definition lower_char :: "char \<Rightarrow> char" where
  "lower_char c =
     (let n = (of_char c :: nat) in if 65 \<le> n \<and> n \<le> 90 then char_of (n + 32) else c)"

definition py_lower :: "string \<Rightarrow> string" where
  "py_lower s = map lower_char s"

definition py_endswith :: "string \<Rightarrow> string \<Rightarrow> bool" where
  "py_endswith s suffix_str =
     (length suffix_str \<le> length s \<and> drop (length s - length suffix_str) s = suffix_str)"

definition is_image_name :: "string \<Rightarrow> bool" where
  "is_image_name filename =
     (py_endswith (py_lower filename) ''.jpg'' \<or> py_endswith (py_lower filename) ''.jpeg''
      \<or> py_endswith (py_lower filename) ''.png'')"

text \<open>
  The first component of \<open>os.path.splitext\<close> on a name without directory separator: the
  name is cut at its last dot, unless nothing but dots comes before that dot.
\<close>

definition splitext_root :: "string \<Rightarrow> string" where
  "splitext_root p =
     (let upto_dot = rev (dropWhile (\<lambda>c. c \<noteq> CHR ''.'') (rev p)) in
      if upto_dot = [] then p
      else if \<exists>c \<in> set (butlast upto_dot). c \<noteq> CHR ''.'' then butlast upto_dot
      else p)"

text \<open>
  A directory listing: each file name with the outcome of loading the file and computing
  the encodings of the faces on it (\<open>Inl\<close> when that raises).
\<close>

type_synonym listing = "(string \<times> (exn + encoding list)) list"

fun load_loop ::
  "listing \<Rightarrow> encoding list \<times> string list \<Rightarrow> exn + encoding list \<times> string list"
where
  "load_loop [] acc = Inr acc"
| "load_loop ((filename, content) # rest) (known_face_encodings, known_face_names) =
     (if is_image_name filename
      then (case content of
              Inl e \<Rightarrow> Inl e
            | Inr [] \<Rightarrow> load_loop rest (known_face_encodings, known_face_names)
            | Inr (first # _) \<Rightarrow>
                load_loop rest (known_face_encodings @ [first],
                                known_face_names @ [splitext_root filename]))
      else load_loop rest (known_face_encodings, known_face_names))"

text \<open>\<open>None\<close> is a directory that does not exist.\<close>

definition load_known_faces :: "listing option \<Rightarrow> exn + encoding list \<times> string list" where
  "load_known_faces known_faces_dir =
     (case known_faces_dir of
        None \<Rightarrow> Inr ([], [])
      | Some entries \<Rightarrow> load_loop entries ([], []))"

section \<open>External capabilities and the file system\<close>

text \<open>
  An item of a YouTube API response, as far as the resolver reads it: either the path
  \<open>['snippet']['thumbnails']\<close> is missing, or it is there and may hold a \<open>high\<close>
  thumbnail with a \<open>url\<close>.
\<close>

datatype item = NoThumbnails | Thumbnails "string option"

text \<open>What one call of \<open>ydl.download\<close> does: whether it raises and whether it writes the output file.\<close>

record dl_outcome =
  dl_raises :: bool
  dl_writes :: bool

text \<open>A video record of the input file is a JSON object with string fields.\<close>

type_synonym video = "string \<rightharpoonup> string"

text \<open>
  Everything outside the program.  The API and the downloader are asked with the number of
  the attempt, so that a request can fail on one attempt and succeed on a later one.
\<close>

record env =
  videos_list :: "string \<Rightarrow> nat \<Rightarrow> exn + item list"
  channels_list :: "string \<Rightarrow> nat \<Rightarrow> exn + item list"
  fetch_image :: "string \<Rightarrow> exn + image"
  ydl_download :: "string \<Rightarrow> nat \<Rightarrow> dl_outcome"
  open_video :: "string \<Rightarrow> video_source"
  listdir :: "string \<Rightarrow> listing option"
  json_load :: "string \<Rightarrow> exn + video list"
  mkdtemp :: string

text \<open>The file system is the set of paths of the files that exist.\<close>

type_synonym files = "string set"

text \<open>\<open>os.path.join\<close> of two components on a POSIX system.\<close>

definition os_path_join :: "string \<Rightarrow> string \<Rightarrow> string" where
  "os_path_join a b =
     (if b \<noteq> [] \<and> hd b = CHR ''/'' then b
      else if a = [] \<or> last a = CHR ''/'' then a @ b
      else a @ ''/'' @ b)"

definition os_remove :: "string \<Rightarrow> files \<Rightarrow> exn + files" where
  "os_remove path fs = (if path \<in> fs then Inr (fs - {path}) else Inl OSError)"

definition rmtree :: "string \<Rightarrow> files \<Rightarrow> files" where
  "rmtree dir fs = {p \<in> fs. take (length dir + 1) p \<noteq> dir @ ''/''}"

definition download_image :: "env \<Rightarrow> string \<Rightarrow> image option" where
  "download_image E url = (case fetch_image E url of Inl e \<Rightarrow> None | Inr img \<Rightarrow> Some img)"

section \<open>Video acquisition adapter\<close>

fun download_attempts :: "env \<Rightarrow> string \<Rightarrow> string \<Rightarrow> nat list \<Rightarrow> files \<Rightarrow> string option \<times> files" where
  "download_attempts E vid temp_dir [] fs = (None, fs)"
| "download_attempts E vid temp_dir (attempt # rest) fs =
     (let output_path = os_path_join temp_dir (vid @ ''.mp4'');
          out = ydl_download E vid attempt;
          fs' = (if dl_writes out then insert output_path fs else fs)
      in if dl_raises out then download_attempts E vid temp_dir rest fs'
         else if output_path \<in> fs' then (Some output_path, fs')
         else (None, fs'))"

definition download_video :: "env \<Rightarrow> string \<Rightarrow> string \<Rightarrow> nat \<Rightarrow> files \<Rightarrow> string option \<times> files" where
  "download_video E vid temp_dir retries fs = download_attempts E vid temp_dir [0..<retries] fs"

section \<open>Metadata resolver\<close>

text \<open>\<open>response['items'][0]['snippet']['thumbnails'].get('high', {}).get('url', '')\<close>\<close>

definition high_url :: "item list \<Rightarrow> exn + string" where
  "high_url items =
     (case items of
        [] \<Rightarrow> Inl IndexError
      | NoThumbnails # _ \<Rightarrow> Inl KeyError
      | Thumbnails None # _ \<Rightarrow> Inr []
      | Thumbnails (Some url) # _ \<Rightarrow> Inr url)"

text \<open>The body of the \<open>try\<close> block of one attempt.\<close>

definition info_attempt :: "env \<Rightarrow> string \<Rightarrow> string \<Rightarrow> nat \<Rightarrow> exn + string \<times> string" where
  "info_attempt E vid cid attempt =
     (case videos_list E vid attempt of
        Inl e \<Rightarrow> Inl e
      | Inr video_items \<Rightarrow>
          (case high_url video_items of
             Inl e \<Rightarrow> Inl e
           | Inr thumbnail_url \<Rightarrow>
               (case channels_list E cid attempt of
                  Inl e \<Rightarrow> Inl e
                | Inr channel_items \<Rightarrow>
                    (case high_url channel_items of
                       Inl e \<Rightarrow> Inl e
                     | Inr avatar_url \<Rightarrow> Inr (thumbnail_url, avatar_url)))))"

text \<open>The retry loop: only \<open>HttpError\<close> is caught; after the last attempt both URLs are empty.\<close>

fun info_attempts :: "env \<Rightarrow> string \<Rightarrow> string \<Rightarrow> nat list \<Rightarrow> exn + string \<times> string" where
  "info_attempts E vid cid [] = Inr ([], [])"
| "info_attempts E vid cid (attempt # rest) =
     (case info_attempt E vid cid attempt of
        Inl HttpError \<Rightarrow> info_attempts E vid cid rest
      | Inl e \<Rightarrow> Inl e
      | Inr urls \<Rightarrow> Inr urls)"

definition get_video_and_channel_info :: "env \<Rightarrow> string \<Rightarrow> string \<Rightarrow> nat \<Rightarrow> exn + string \<times> string" where
  "get_video_and_channel_info E vid cid retries = info_attempts E vid cid [0..<retries]"

section \<open>Video orchestrator\<close>

record match_result =
  video_id :: string
  has_known_face_in_thumbnail :: bool
  has_known_face_in_avatar :: bool
  has_known_face_in_video :: bool

text \<open>
  The body of the \<open>try\<close> block of \<open>process_video\<close>.  The result is \<open>None\<close> when the
  frame scan never ends; otherwise it is the dictionary returned or the exception raised,
  with the file system the block leaves behind.
\<close>

definition process_video_try ::
  "env \<Rightarrow> string \<Rightarrow> string \<Rightarrow> string \<Rightarrow> encoding list \<Rightarrow> string list \<Rightarrow> files
     \<Rightarrow> ((exn + match_result) \<times> files) option"
where
  "process_video_try E vid cid temp_dir known_face_encodings known_face_names fs =
     (case get_video_and_channel_info E vid cid 3 of
        Inl e \<Rightarrow> Some (Inl e, fs)
      | Inr (thumbnail_url, avatar_url) \<Rightarrow>
          (let in_thumbnail =
                 (if thumbnail_url \<noteq> []
                  then fst (detect_known_faces_in_image (download_image E thumbnail_url)
                              known_face_encodings known_face_names)
                  else False);
               in_avatar =
                 (if avatar_url \<noteq> []
                  then fst (detect_known_faces_in_image (download_image E avatar_url)
                              known_face_encodings known_face_names)
                  else False)
           in case download_video E vid temp_dir 3 fs of
                (None, fs1) \<Rightarrow>
                  Some (Inr \<lparr>video_id = vid, has_known_face_in_thumbnail = in_thumbnail,
                             has_known_face_in_avatar = in_avatar,
                             has_known_face_in_video = False\<rparr>, fs1)
              | (Some video_path, fs1) \<Rightarrow>
                  if video_path = []
                  then Some (Inr \<lparr>video_id = vid, has_known_face_in_thumbnail = in_thumbnail,
                                  has_known_face_in_avatar = in_avatar,
                                  has_known_face_in_video = False\<rparr>, fs1)
                  else (case extract_frames (open_video E video_path) (5 / 2) (1 / 4) of
                          None \<Rightarrow> None
                        | Some (frs, tss) \<Rightarrow>
                            (let in_video = fst (detect_known_faces_in_frames frs tss
                                                   known_face_encodings known_face_names)
                             in case os_remove video_path fs1 of
                                  Inl e \<Rightarrow> Some (Inl e, fs1)
                                | Inr fs2 \<Rightarrow>
                                    Some (Inr \<lparr>video_id = vid,
                                               has_known_face_in_thumbnail = in_thumbnail,
                                               has_known_face_in_avatar = in_avatar,
                                               has_known_face_in_video = in_video\<rparr>, fs2)))))"

text \<open>
  \<open>process_video\<close>: the two fields are read before the \<open>try\<close> block, so a missing field
  raises out of the function; an exception of the \<open>try\<close> block becomes the all-false
  result.
\<close>

definition process_video ::
  "env \<Rightarrow> video \<Rightarrow> string \<Rightarrow> encoding list \<Rightarrow> string list \<Rightarrow> files
     \<Rightarrow> ((exn + match_result) \<times> files) option"
where
  "process_video E v temp_dir known_face_encodings known_face_names fs =
     (case v ''video_id'' of
        None \<Rightarrow> Some (Inl KeyError, fs)
      | Some vid \<Rightarrow>
          (case v ''channel_id'' of
             None \<Rightarrow> Some (Inl KeyError, fs)
           | Some cid \<Rightarrow>
               (case process_video_try E vid cid temp_dir known_face_encodings known_face_names fs of
                  None \<Rightarrow> None
                | Some (Inl e, fs') \<Rightarrow>
                    Some (Inr \<lparr>video_id = vid, has_known_face_in_thumbnail = False,
                               has_known_face_in_avatar = False,
                               has_known_face_in_video = False\<rparr>, fs')
                | Some (Inr result, fs') \<Rightarrow> Some (Inr result, fs'))))"

section \<open>The run\<close>

text \<open>The loop of \<open>main\<close> over the videos; an exception of \<open>process_video\<close> leaves the loop.\<close>

fun process_all ::
  "env \<Rightarrow> video list \<Rightarrow> string \<Rightarrow> encoding list \<Rightarrow> string list \<Rightarrow> files \<Rightarrow> match_result list
     \<Rightarrow> ((exn + match_result list) \<times> files) option"
where
  "process_all E [] temp_dir known_face_encodings known_face_names fs results =
     Some (Inr results, fs)"
| "process_all E (v # rest) temp_dir known_face_encodings known_face_names fs results =
     (case process_video E v temp_dir known_face_encodings known_face_names fs of
        None \<Rightarrow> None
      | Some (Inl e, fs') \<Rightarrow> Some (Inl e, fs')
      | Some (Inr result, fs') \<Rightarrow>
          process_all E rest temp_dir known_face_encodings known_face_names fs'
            (results @ [result]))"

text \<open>
  How a run of \<open>main\<close> ends when it returns: with the error that there are no known faces
  (nothing else is done), with the results written to the output file, or with the error
  logged by the handler around the loop (no output file is written).
\<close>

datatype run_end = NoKnownFaces | Saved "match_result list" | Failed exn

text \<open>
  \<open>main\<close>.  The gallery is loaded outside the \<open>try\<close> block, so an exception of the
  loader leaves \<open>main\<close> (\<open>Inl\<close>).
\<close>

definition main :: "env \<Rightarrow> string \<Rightarrow> files \<Rightarrow> ((exn + run_end) \<times> files) option" where
  "main E json_file fs =
     (case load_known_faces (listdir E ''known_faces'') of
        Inl e \<Rightarrow> Some (Inl e, fs)
      | Inr (known_face_encodings, known_face_names) \<Rightarrow>
          if known_face_encodings = [] then Some (Inr NoKnownFaces, fs)
          else (let temp_dir = mkdtemp E in
                case json_load E json_file of
                  Inl e \<Rightarrow> Some (Inr (Failed e), rmtree temp_dir fs)
                | Inr videos \<Rightarrow>
                    (case process_all E videos temp_dir known_face_encodings known_face_names
                            fs [] of
                       None \<Rightarrow> None
                     | Some (Inl e, fs') \<Rightarrow> Some (Inr (Failed e), rmtree temp_dir fs')
                     | Some (Inr results, fs') \<Rightarrow>
                         Some (Inr (Saved results), rmtree temp_dir fs'))))"

section \<open>The frame selector as the specification words it\<close>




section \<open>Example inputs\<close>

text \<open>A frame without faces, of good contrast, with the given sharpness.\<close>

definition sharp_frame :: "rat \<Rightarrow> frame" where
  "sharp_frame x = \<lparr>laplacian_var = x, gray_std = 40, frame_faces = Inr []\<rparr>"

text \<open>A video of 100 frames at 15 frames per second, each frame sharper than the one before.\<close>

definition video_15fps :: video_source where
  "video_15fps = \<lparr>cap_fps = 15, cap_frame_count = 100,
     cap_read = (\<lambda>p. if 0 \<le> p \<and> p < 100 then Some (sharp_frame (200 + of_int p)) else None)\<rparr>"


text \<open>A slide show: three frames at one frame every four seconds.\<close>

definition video_slow :: video_source where
  "video_slow = \<lparr>cap_fps = 1 / 4, cap_frame_count = 3,
     cap_read = (\<lambda>p. if 0 \<le> p \<and> p < 3 then Some (sharp_frame 200) else None)\<rparr>"

text \<open>What a capture that could not be opened reports: every property is zero.\<close>

definition video_unopened :: video_source where
  "video_unopened = \<lparr>cap_fps = 0, cap_frame_count = 0, cap_read = (\<lambda>p. None)\<rparr>"


section \<open>The checks and the gallery as the specification words them\<close>

text \<open>
  The check of one image surface (thumbnail or avatar) taken by itself: it is made only when
  the URL is not empty, and it is the matcher's verdict on the downloaded image.
\<close>

definition image_surface_check :: "env \<Rightarrow> string \<Rightarrow> encoding list \<Rightarrow> string list \<Rightarrow> bool" where
  "image_surface_check E url known names =
     (if url \<noteq> []
      then fst (detect_known_faces_in_image (download_image E url) known names)
      else False)"

text \<open>
  The video-frame check taken by itself: the verdict of the frame matcher on the frames
  selected from the downloaded file, false when no file is obtained.  Where the frame scan
  never ends there is no verdict; it is used only where the scan ends.
\<close>

definition video_frame_check :: "env \<Rightarrow> string \<Rightarrow> string \<Rightarrow> encoding list \<Rightarrow> string list \<Rightarrow> files \<Rightarrow> bool" where
  "video_frame_check E vid temp_dir known names fs =
     (case download_video E vid temp_dir 3 fs of
        (None, _) \<Rightarrow> False
      | (Some path, _) \<Rightarrow>
          (case extract_frames (open_video E path) (5 / 2) (1 / 4) of
             None \<Rightarrow> False
           | Some (frs, tss) \<Rightarrow> fst (detect_known_faces_in_frames frs tss known names)))"

text \<open>
  The files one video leaves behind: what the download left, without the downloaded file.
\<close>

definition files_after_video :: "env \<Rightarrow> string \<Rightarrow> string \<Rightarrow> files \<Rightarrow> files" where
  "files_after_video E vid temp_dir fs =
     (case download_video E vid temp_dir 3 fs of
        (None, fs1) \<Rightarrow> fs1
      | (Some path, fs1) \<Rightarrow> fs1 - {path})"

text \<open>
  The gallery of the specification: one entry per reference image with a detectable face,
  in directory order, holding the first face's embedding and the file name without its
  extension.
\<close>

definition spec_gallery :: "listing \<Rightarrow> encoding list \<times> string list" where
  "spec_gallery entries =
     (concat (map (\<lambda>(filename, content).
                if is_image_name filename
                then (case content of Inr (first # _) \<Rightarrow> [first] | _ \<Rightarrow> []) else []) entries),
      concat (map (\<lambda>(filename, content).
                if is_image_name filename
                then (case content of Inr (first # _) \<Rightarrow> [splitext_root filename] | _ \<Rightarrow> []) else []) entries))"

section \<open>Example inputs for the matcher, the loader and the orchestrator\<close>

text \<open>
  A video at 2 frames per second whose frame 5 is blurry and whose frame 10 has low
  contrast.
\<close>

definition video_mixed :: video_source where
  "video_mixed = \<lparr>cap_fps = 2, cap_frame_count = 15,
     cap_read = (\<lambda>p. if p = 5 then Some \<lparr>laplacian_var = 100, gray_std = 40, frame_faces = Inr []\<rparr>
                      else if p = 10 then Some \<lparr>laplacian_var = 200, gray_std = 20, frame_faces = Inr []\<rparr>
                      else if 0 \<le> p \<and> p < 15 then Some (sharp_frame 200) else None)\<rparr>"

text \<open>
  A directory of reference images and the gallery it gives.
\<close>

definition gallery_dir :: listing where
  "gallery_dir = [(''alice.jpg'', Inr [[0, 0]]), (''notes.txt'', Inr [[9, 9]]),
                  (''Bob.PNG'', Inr [[1, 0], [7, 7]]), (''blank.jpeg'', Inr []),
                  (''bob2.jpg'', Inr [[1, 1 / 5]])]"

definition gallery_encodings :: "encoding list" where
  "gallery_encodings = [[0, 0], [1, 0], [1, 1 / 5]]"

definition gallery_names :: "string list" where
  "gallery_names = [''alice'', ''Bob'', ''bob2'']"

text \<open>
  A square face box of the given side at the origin, with one embedding.
\<close>

definition face_of :: "int \<Rightarrow> encoding \<Rightarrow> face" where
  "face_of side e = \<lparr>box_top = 0, box_right = side, box_bottom = side, box_left = 0, box_encodings = [e]\<rparr>"

text \<open>
  A video on whose frames face detection raises.
\<close>

definition video_undetectable :: video_source where
  "video_undetectable = \<lparr>cap_fps = 15, cap_frame_count = 10,
     cap_read = (\<lambda>p. if 0 \<le> p \<and> p < 10
                      then Some \<lparr>laplacian_var = 200, gray_std = 40, frame_faces = Inl OtherError\<rparr>
                      else None)\<rparr>"

text \<open>
  Video records, one of them without its \<open>video_id\<close> field.
\<close>

definition video_a :: video where
  "video_a = [''video_id'' \<mapsto> ''a'', ''channel_id'' \<mapsto> ''ch'', ''title'' \<mapsto> ''x'']"

definition video_bad :: video where
  "video_bad = [''video_id'' \<mapsto> ''bad'', ''channel_id'' \<mapsto> ''ch'']"

definition video_no_id :: video where
  "video_no_id = [''channel_id'' \<mapsto> ''ch'']"

text \<open>
  An environment in which every request succeeds: the avatar shows a known face, the
  thumbnail an unknown one, the videos no face.
\<close>

definition env_ok :: env where
  "env_ok = \<lparr>videos_list = (\<lambda>vid attempt. Inr [Thumbnails (Some ''thumb'')]),
     channels_list = (\<lambda>cid attempt. Inr [Thumbnails (Some ''avatar'')]),
     fetch_image = (\<lambda>url. if url = ''avatar'' then Inr (Inr [face_of 50 [0, 1 / 10]])
                            else if url = ''thumb'' then Inr (Inr [face_of 50 [5, 5]])
                            else Inl OtherError),
     ydl_download = (\<lambda>vid attempt. \<lparr>dl_raises = False, dl_writes = True\<rparr>),
     open_video = (\<lambda>path. if path = ''/tmp/t/bad.mp4'' then video_undetectable else video_15fps),
     listdir = (\<lambda>dir. if dir = ''known_faces'' then Some gallery_dir else None),
     json_load = (\<lambda>file. Inr [video_no_id, video_a]),
     mkdtemp = ''/tmp/t''\<rparr>"

text \<open>
  Variants: the channel request always fails with \<open>HttpError\<close> (and the thumbnail shows
  a known face); the video request returns no item; the directory of known faces is
  missing; the directory holds no usable image.
\<close>

definition env_channel_down :: env where
  "env_channel_down = env_ok\<lparr>channels_list := (\<lambda>cid attempt. Inl HttpError),
      fetch_image := (\<lambda>url. if url = ''thumb'' then Inr (Inr [face_of 50 [0, 1 / 10]]) else Inl OtherError)\<rparr>"

definition env_no_items :: env where
  "env_no_items = env_ok\<lparr>videos_list := (\<lambda>vid attempt. Inr [])\<rparr>"

definition env_no_dir :: env where
  "env_no_dir = env_ok\<lparr>listdir := (\<lambda>dir. None)\<rparr>"

definition env_blank_dir :: env where
  "env_blank_dir = env_ok\<lparr>listdir := (\<lambda>dir. Some [(''notes.txt'', Inr [[9, 9]]), (''blank.jpeg'', Inr [])])\<rparr>"

definition files0 :: files where
  "files0 = {''/home/u/videos.json''}"

section \<open>Properties of the frame selector\<close>

lemma scan_body_continue:
  "scan_body v fi laf tot s = Inr (True, s') \<Longrightarrow> frame_count s' = frame_count s + fi"
  by (auto simp: scan_body_def gate_best_def Let_def py_div_def
           split: option.splits sum.splits prod.splits if_splits)


lemma scan_body_zero_interval:
  assumes "cap_fps v \<noteq> 0" "cap_read v (frame_count s) \<noteq> None"
  shows "\<exists>s'. scan_body v 0 laf tot s = Inr (True, s') \<and> frame_count s' = frame_count s"
  using assms
  by (auto simp: scan_body_def gate_best_def Let_def py_div_def
           split: option.splits sum.splits prod.splits if_splits)

text \<open>
  With a step of zero, a non-zero frame rate and a readable frame at the scan index, the
  loop has no result: each pass ends where it began.
\<close>

lemma scan_loop_stuck:
  assumes "scan_loop v fi laf tot s = Some r"
  shows "\<not> (fi = 0 \<and> cap_fps v \<noteq> 0 \<and> frame_count s < tot \<and> cap_read v (frame_count s) \<noteq> None)"
  using assms
proof (induction rule: scan_loop.raw_induct[rotated 1, consumes 1])
  case (1 loop v fi laf tot s r)
  show ?case
  proof
    assume H: "fi = 0 \<and> cap_fps v \<noteq> 0 \<and> frame_count s < tot \<and> cap_read v (frame_count s) \<noteq> None"
    then obtain s' where b: "scan_body v fi laf tot s = Inr (True, s')"
      and fc: "frame_count s' = frame_count s"
      using scan_body_zero_interval[of v s laf tot] by auto
    from 1(2) H b have "loop v fi laf tot s' = Some r" by simp
    from 1(1)[OF this] H fc show False by simp
  qed
qed

text \<open>With a step of at least one frame the distance to the end shrinks on every pass.\<close>

lemma scan_loop_terminates:
  "1 \<le> fi \<Longrightarrow> \<exists>r. scan_loop v fi laf tot s = Some r"
proof (induction "nat (tot - frame_count s)" arbitrary: s rule: less_induct)
  case less
  show ?case
  proof (cases "frame_count s < tot")
    case False
    then show ?thesis by (subst scan_loop.simps) simp
  next
    case True
    show ?thesis
    proof (cases "scan_body v fi laf tot s")
      case (Inl e)
      with True show ?thesis by (subst scan_loop.simps) simp
    next
      case (Inr cs)
      obtain c s' where cs: "cs = (c, s')" by (cases cs)
      show ?thesis
      proof (cases c)
        case False
        with True Inr cs show ?thesis by (subst scan_loop.simps) simp
      next
        case c: True
        from Inr cs c have fc: "frame_count s' = frame_count s + fi"
          by (simp add: scan_body_continue)
        with less.prems True have "nat (tot - frame_count s') < nat (tot - frame_count s)"
          by simp
        from less.hyps[OF this less.prems] obtain r where "scan_loop v fi laf tot s' = Some r"
          by blast
        with True Inr cs c show ?thesis by (subst scan_loop.simps) simp
      qed
    qed
  qed
qed

lemma extract_frames_terminates:
  assumes "1 \<le> py_int (cap_fps v * interval)"
  shows "\<exists>r. extract_frames v interval la = Some r"
proof -
  from scan_loop_terminates[OF assms] obtain r where
    "scan_loop v (py_int (cap_fps v * interval)) (py_int (cap_fps v * la))
       (py_int (cap_frame_count v)) \<lparr>frame_count = 0, frames = [], timestamps = []\<rparr> = Some r"
    by blast
  then show ?thesis by (cases r) (simp_all add: extract_frames_def Let_def)
qed










text \<open>
  C4 (as amended).  \<open>extract_frames\<close> returns for every video whose frame rate and
  interval give \<open>int(fps * interval) \<ge> 1\<close>.  The condition cannot be dropped: when
  \<open>int(fps * interval)\<close> is zero while the frame rate is not, and the video has at least
  one frame and its frame 0 can be read, the scan never ends.
\<close>

theorem C4_termination:
  "(1 \<le> py_int (cap_fps v * interval) \<longrightarrow> (\<exists>r. extract_frames v interval look_around = Some r))
   \<and> (py_int (cap_fps v * interval) = 0 \<and> cap_fps v \<noteq> 0 \<and> 0 < py_int (cap_frame_count v)
        \<and> cap_read v 0 \<noteq> None \<longrightarrow> extract_frames v interval look_around = None)"
proof (intro conjI impI)
  assume "1 \<le> py_int (cap_fps v * interval)"
  then show "\<exists>r. extract_frames v interval look_around = Some r"
    by (rule extract_frames_terminates)
next
  assume H: "py_int (cap_fps v * interval) = 0 \<and> cap_fps v \<noteq> 0 \<and> 0 < py_int (cap_frame_count v)
        \<and> cap_read v 0 \<noteq> None"
  have "scan_loop v (py_int (cap_fps v * interval)) (py_int (cap_fps v * look_around))
          (py_int (cap_frame_count v)) \<lparr>frame_count = 0, frames = [], timestamps = []\<rparr> = None"
  proof (rule ccontr)
    assume "\<not> ?thesis"
    then obtain r where
      "scan_loop v (py_int (cap_fps v * interval)) (py_int (cap_fps v * look_around))
         (py_int (cap_frame_count v)) \<lparr>frame_count = 0, frames = [], timestamps = []\<rparr> = Some r"
      by auto
    from scan_loop_stuck[OF this] H show False by simp
  qed
  then show "extract_frames v interval look_around = None"
    by (simp add: extract_frames_def Let_def)
qed

theorem C4_termination_witness:
  "1 \<le> py_int (cap_fps video_15fps * (5 / 2))
   \<and> (\<exists>r. extract_frames video_15fps (5 / 2) (1 / 4) = Some r)
   \<and> py_int (cap_fps video_slow * (5 / 2)) = 0 \<and> cap_fps video_slow \<noteq> 0
   \<and> 0 < py_int (cap_frame_count video_slow) \<and> cap_read video_slow 0 \<noteq> None
   \<and> extract_frames video_slow (5 / 2) (1 / 4) = None"
proof -
  have a: "1 \<le> py_int (cap_fps video_15fps * (5 / 2))" by code_simp
  have b: "py_int (cap_fps video_slow * (5 / 2)) = 0 \<and> cap_fps video_slow \<noteq> 0
   \<and> 0 < py_int (cap_frame_count video_slow) \<and> cap_read video_slow 0 \<noteq> None" by code_simp
  from a b C4_termination[of video_15fps "5 / 2" "1 / 4"]
    C4_termination[of video_slow "5 / 2" "1 / 4"]
  show ?thesis by blast
qed

text \<open>
  A capture that could not be opened gives \<open>int(fps * interval) = 0\<close>, and
  \<open>extract_frames\<close> returns on it: the loop is not entered.
\<close>

theorem C4_necessity_counterexample:
  "\<not> 1 \<le> py_int (cap_fps video_unopened * (5 / 2))
   \<and> extract_frames video_unopened (5 / 2) (1 / 4) = Some ([], [])"
  by code_simp

lemma gate_best_frames_ok:
  assumes "gate_best fps t best s = Inr s'" "\<forall>f \<in> set (frames s). \<not> is_frame_blurry f 150 \<and> \<not> has_low_contrast f 30"
  shows "\<forall>f \<in> set (frames s'). \<not> is_frame_blurry f 150 \<and> \<not> has_low_contrast f 30"
  using assms
  by (auto simp: gate_best_def split: option.splits sum.splits prod.splits if_splits)

lemma scan_body_frames_ok:
  assumes "scan_body v fi laf tot s = Inr (c, s')" "\<forall>f \<in> set (frames s). \<not> is_frame_blurry f 150 \<and> \<not> has_low_contrast f 30"
  shows "\<forall>f \<in> set (frames s'). \<not> is_frame_blurry f 150 \<and> \<not> has_low_contrast f 30"
proof (cases "cap_read v (frame_count s)")
  case None
  with assms show ?thesis by (simp add: scan_body_def)
next
  case (Some x)
  with assms(1) obtain s1 where g: "gate_best (cap_fps v) (frame_count s)
                  (best_in_window (cap_read v) (window_positions tot laf (frame_count s))
                     (None, - 1, frame_count s)) s = Inr s1" and s': "s' = s1\<lparr>frame_count := frame_count s1 + fi\<rparr>"
    by (auto simp: scan_body_def Let_def split: sum.splits)
  from gate_best_frames_ok[OF g assms(2)] s' show ?thesis by simp
qed

lemma scan_loop_frames_ok:
  assumes "scan_loop v fi laf tot s = Some r"
  shows "(\<forall>f \<in> set (frames s). \<not> is_frame_blurry f 150 \<and> \<not> has_low_contrast f 30) \<longrightarrow>
         (\<forall>s'. r = Inr s' \<longrightarrow> (\<forall>f \<in> set (frames s'). \<not> is_frame_blurry f 150 \<and> \<not> has_low_contrast f 30))"
  using assms
proof (induction rule: scan_loop.raw_induct[rotated 1, consumes 1])
  case (1 loop v fi laf tot s r)
  show ?case
  proof (intro impI allI)
    fix s'
    assume ok: "\<forall>f \<in> set (frames s). \<not> is_frame_blurry f 150 \<and> \<not> has_low_contrast f 30"
      and r: "r = Inr s'"
    show "\<forall>f \<in> set (frames s'). \<not> is_frame_blurry f 150 \<and> \<not> has_low_contrast f 30"
    proof (cases "frame_count s < tot")
      case False
      with 1(2) r ok show ?thesis by simp
    next
      case True
      show ?thesis
      proof (cases "scan_body v fi laf tot s")
        case (Inl e)
        with True 1(2) r show ?thesis by simp
      next
        case (Inr cs)
        obtain c s1 where cs: "cs = (c, s1)" by (cases cs)
        from scan_body_frames_ok[OF Inr[unfolded cs] ok]
        have ok1: "\<forall>f \<in> set (frames s1). \<not> is_frame_blurry f 150 \<and> \<not> has_low_contrast f 30" .
        show ?thesis
        proof (cases c)
          case False
          with True Inr cs 1(2) r ok1 show ?thesis by simp
        next
          case c: True
          with True Inr cs 1(2) have "loop v fi laf tot s1 = Some r" by simp
          from 1(1)[OF this] ok1 r show ?thesis by simp
        qed
      qed
    qed
  qed
qed

lemma scan_body_discards:
  assumes "scan_body v fi laf tot s = Inr (c, s')"
    and "best_in_window (cap_read v) (window_positions tot laf (frame_count s)) (None, - 1, frame_count s) = (Some f, bl, bp)"
    and "is_frame_blurry f 150 \<or> has_low_contrast f 30"
  shows "frames s' = frames s \<and> timestamps s' = timestamps s"
  using assms
  by (auto simp: scan_body_def gate_best_def Let_def split: option.splits sum.splits if_splits)

lemma extract_frames_ok:
  assumes e: "extract_frames v interval look_around = Some (frs, tss)"
  shows "\<forall>f \<in> set frs. \<not> is_frame_blurry f 150 \<and> \<not> has_low_contrast f 30"
proof (cases "scan_loop v (py_int (cap_fps v * interval)) (py_int (cap_fps v * look_around))
       (py_int (cap_frame_count v)) \<lparr>frame_count = 0, frames = [], timestamps = []\<rparr>")
  case None
  with e show ?thesis by (simp add: extract_frames_def Let_def)
next
  case (Some r)
  show ?thesis
  proof (cases r)
    case (Inl x)
    with Some e show ?thesis by (auto simp add: extract_frames_def Let_def)
  next
    case (Inr s1)
    with Some e have "frs = frames s1" by (auto simp add: extract_frames_def Let_def)
    with scan_loop_frames_ok[OF Some] Inr show ?thesis by simp
  qed
qed

text \<open>
  C6_emitted_frames_pass_gates.  Every frame \<open>extract_frames\<close> emits is neither blurry (sharpness below 150) nor
  of low contrast (contrast below 30); and a pass of the scan whose window's best frame
  fails either gate adds nothing to the output: no other frame of the window takes its
  place.
\<close>

theorem C6_emitted_frames_pass_gates:
  "(extract_frames v interval look_around = Some (frs, tss) \<longrightarrow>
      (\<forall>f \<in> set frs. \<not> is_frame_blurry f 150 \<and> \<not> has_low_contrast f 30))
   \<and> (scan_body v fi laf tot s = Inr (c, s')
        \<and> best_in_window (cap_read v) (window_positions tot laf (frame_count s))
             (None, - 1, frame_count s) = (Some f, bl, bp)
        \<and> (is_frame_blurry f 150 \<or> has_low_contrast f 30)
      \<longrightarrow> frames s' = frames s \<and> timestamps s' = timestamps s)"
  using extract_frames_ok[of v interval look_around frs tss] scan_body_discards[of v fi laf tot s c s' f bl bp]
  by blast

theorem C6_emitted_frames_pass_gates_witness:
  "extract_frames video_mixed (5 / 2) (1 / 4) = Some ([sharp_frame 200], [0])
   \<and> \<not> is_frame_blurry (sharp_frame 200) 150 \<and> \<not> has_low_contrast (sharp_frame 200) 30
   \<and> scan_body video_mixed 5 0 15 \<lparr>frame_count = 5, frames = [sharp_frame 200], timestamps = [0]\<rparr>
        = Inr (True, \<lparr>frame_count = 10, frames = [sharp_frame 200], timestamps = [0]\<rparr>)
   \<and> frames \<lparr>frame_count = 10, frames = [sharp_frame 200], timestamps = [0]\<rparr> = frames \<lparr>frame_count = 5, frames = [sharp_frame 200], timestamps = [0]\<rparr>"
proof -
  have w1: "extract_frames video_mixed (5 / 2) (1 / 4) = Some ([sharp_frame 200], [0])"
    by code_simp
  have w2: "scan_body video_mixed 5 0 15 \<lparr>frame_count = 5, frames = [sharp_frame 200], timestamps = [0]\<rparr>
     = Inr (True, \<lparr>frame_count = 10, frames = [sharp_frame 200], timestamps = [0]\<rparr>)
     \<and> best_in_window (cap_read video_mixed)
          (window_positions 15 0 (frame_count \<lparr>frame_count = 5, frames = [sharp_frame 200], timestamps = [0]\<rparr>))
          (None, - 1, frame_count \<lparr>frame_count = 5, frames = [sharp_frame 200], timestamps = [0]\<rparr>)
         = (Some \<lparr>laplacian_var = 100, gray_std = 40, frame_faces = Inr []\<rparr>, 100, 5)
     \<and> (is_frame_blurry \<lparr>laplacian_var = 100, gray_std = 40, frame_faces = Inr []\<rparr> 150
          \<or> has_low_contrast \<lparr>laplacian_var = 100, gray_std = 40, frame_faces = Inr []\<rparr> 30)"
    by code_simp
  have w3: "\<not> is_frame_blurry (sharp_frame 200) 150 \<and> \<not> has_low_contrast (sharp_frame 200) 30"
    by code_simp
  from w1 w2 w3 C6_emitted_frames_pass_gates[of video_mixed "5 / 2" "1 / 4" "[sharp_frame 200]" "[0]" 5 0 15
      "\<lparr>frame_count = 5, frames = [sharp_frame 200], timestamps = [0]\<rparr>" True
      "\<lparr>frame_count = 10, frames = [sharp_frame 200], timestamps = [0]\<rparr>"
      "\<lparr>laplacian_var = 100, gray_std = 40, frame_faces = Inr []\<rparr>" 100 5]
  show ?thesis by simp
qed

section \<open>Properties of the face matcher\<close>

lemma True_in_compare_faces:
  "True \<in> set (compare_faces known e tol) \<longleftrightarrow> (\<exists>k \<in> set known. within_tolerance k e tol)"
  by (auto simp: compare_faces_def)

lemma py_index_first:
  assumes "i < length xs" "xs ! i = x" "\<forall>j<i. xs ! j \<noteq> x"
  shows "py_index x xs = i"
  using assms
proof (induction xs arbitrary: i)
  case Nil
  then show ?case by simp
next
  case (Cons y ys)
  show ?case
  proof (cases i)
    case 0
    with Cons.prems show ?thesis by simp
  next
    case (Suc n)
    with Cons.prems have "y \<noteq> x" by auto
    moreover from Suc Cons.prems have "py_index x ys = n"
      by (intro Cons.IH) auto
    ultimately show ?thesis using Suc by simp
  qed
qed

lemma match_face_encodings_none:
  assumes "\<forall>e \<in> set es. \<forall>k \<in> set known. \<not> within_tolerance k e (9 / 20)"
  shows "match_face_encodings known names es = Inr None"
  using assms by (induction es) (auto simp: True_in_compare_faces Let_def)

lemma match_face_encodings_first:
  assumes len: "length names = length known"
    and pre: "\<forall>e' \<in> set es1. \<forall>k \<in> set known. \<not> within_tolerance k e' (9 / 20)"
    and i: "i < length known" "within_tolerance (known ! i) e (9 / 20)"
    and first: "\<forall>j<i. \<not> within_tolerance (known ! j) e (9 / 20)"
  shows "match_face_encodings known names (es1 @ e # es2) = Inr (Some (names ! i))"
  using pre
proof (induction es1)
  case Nil
  have m: "True \<in> set (compare_faces known e (9 / 20))"
    using i by (auto simp: True_in_compare_faces)
  have "py_index True (compare_faces known e (9 / 20)) = i"
    using i first by (intro py_index_first) (auto simp: compare_faces_def)
  with m i len show ?case by (simp add: Let_def)
next
  case (Cons a es1)
  then show ?case by (auto simp: True_in_compare_faces Let_def)
qed

lemma scan_face_locations_skip:
  assumes "\<forall>g \<in> set pre. too_small g \<or> (\<forall>e \<in> set (box_encodings g). \<forall>k \<in> set known. \<not> within_tolerance k e (9 / 20))"
  shows "scan_face_locations known names (pre @ rest) tr =
         scan_face_locations known names rest
           (tr @ map (\<lambda>g. EncodingsComputed (face_box g)) (filter (\<lambda>g. \<not> too_small g) pre))"
  using assms
proof (induction pre arbitrary: tr)
  case Nil
  then show ?case by simp
next
  case (Cons g pre)
  show ?case
  proof (cases "too_small g")
    case True
    with Cons show ?thesis by simp
  next
    case False
    with Cons.prems have "match_face_encodings known names (box_encodings g) = Inr None"
      by (intro match_face_encodings_none) auto
    with False Cons show ?thesis by simp
  qed
qed

lemma scan_face_locations_no_match:
  assumes "\<forall>g \<in> set locs. too_small g \<or> (\<forall>e \<in> set (box_encodings g). \<forall>k \<in> set known. \<not> within_tolerance k e (9 / 20))"
  shows "fst (scan_face_locations known names locs tr) = Inr False"
  using scan_face_locations_skip[OF assms, where rest="[]" and names=names and tr=tr] by simp

text \<open>
  C8_first_match_wins.  Let the detected faces be \<open>pre @ f # post\<close>, where no face of \<open>pre\<close> is both large
  enough and matched by a gallery entry, and \<open>f\<close> is large enough and has an embedding
  \<open>e\<close> that matches the gallery entry \<open>i\<close> and no earlier entry.  Then the matcher returns
  true, the identity it reports is the name of entry \<open>i\<close>, the first matching entry in
  gallery order, and no embedding is computed for a face of \<open>post\<close>.
\<close>

theorem C8_first_match_wins:
  assumes len: "length names = length known"
    and pre: "\<forall>g \<in> set pre. too_small g \<or> (\<forall>e \<in> set (box_encodings g). \<forall>k \<in> set known. \<not> within_tolerance k e (9 / 20))"
    and big: "\<not> too_small f"
    and enc: "box_encodings f = es1 @ e # es2"
    and es1: "\<forall>e' \<in> set es1. \<forall>k \<in> set known. \<not> within_tolerance k e' (9 / 20)"
    and i: "i < length known" "within_tolerance (known ! i) e (9 / 20)"
    and first: "\<forall>j<i. \<not> within_tolerance (known ! j) e (9 / 20)"
  shows "detect_known_faces_in_image (Some (Inr (pre @ f # post))) known names =
           (True, map (\<lambda>g. EncodingsComputed (face_box g)) (filter (\<lambda>g. \<not> too_small g) pre)
                  @ [EncodingsComputed (face_box f), MatchReported (names ! i)])"
proof -
  have m: "match_face_encodings known names (box_encodings f) = Inr (Some (names ! i))"
    unfolding enc by (rule match_face_encodings_first[OF len es1 i first])
  have "scan_face_locations known names (pre @ f # post) [] =
        scan_face_locations known names (f # post)
          ([] @ map (\<lambda>g. EncodingsComputed (face_box g)) (filter (\<lambda>g. \<not> too_small g) pre))"
    by (rule scan_face_locations_skip[OF pre])
  also have "\<dots> = (Inr True, map (\<lambda>g. EncodingsComputed (face_box g)) (filter (\<lambda>g. \<not> too_small g) pre)
                  @ [EncodingsComputed (face_box f), MatchReported (names ! i)])"
    using big m by simp
  finally show ?thesis by (simp add: detect_known_faces_in_image_def)
qed

theorem C8_first_match_wins_witness:
  "detect_known_faces_in_image
     (Some (Inr ([face_of 30 [0, 0], face_of 50 [5, 5]] @ face_of 60 [1, 1 / 10] # [face_of 70 [0, 0]])))
     gallery_encodings gallery_names
   = (True, [EncodingsComputed (0, 50, 50, 0), EncodingsComputed (0, 60, 60, 0), MatchReported ''Bob''])
   \<and> within_tolerance (gallery_encodings ! 1) [1, 1 / 10] (9 / 20)
   \<and> within_tolerance (gallery_encodings ! 2) [1, 1 / 10] (9 / 20)"
proof -
  have len: "length gallery_names = length gallery_encodings" by code_simp
  have pre: "\<forall>g \<in> set [face_of 30 [0, 0], face_of 50 [5, 5]]. too_small g \<or>
          (\<forall>e \<in> set (box_encodings g). \<forall>k \<in> set gallery_encodings. \<not> within_tolerance k e (9 / 20))"
    by code_simp
  have big: "\<not> too_small (face_of 60 [1, 1 / 10])" by code_simp
  have enc: "box_encodings (face_of 60 [1, 1 / 10]) = [] @ [1, 1 / 10] # []" by code_simp
  have es1: "\<forall>e' \<in> set ([] :: encoding list). \<forall>k \<in> set gallery_encodings. \<not> within_tolerance k e' (9 / 20)"
    by simp
  have i: "1 < length gallery_encodings" "within_tolerance (gallery_encodings ! 1) [1, 1 / 10] (9 / 20)"
    by code_simp+
  have i2: "within_tolerance (gallery_encodings ! 2) [1, 1 / 10] (9 / 20)" by code_simp
  have first: "\<forall>j<1. \<not> within_tolerance (gallery_encodings ! j) [1, 1 / 10] (9 / 20)"
  proof -
    have "\<not> within_tolerance (gallery_encodings ! 0) [1, 1 / 10] (9 / 20)" by code_simp
    then show ?thesis by simp
  qed
  have nm: "gallery_names ! 1 = ''Bob''" by code_simp
  have tr: "map (\<lambda>g. EncodingsComputed (face_box g)) (filter (\<lambda>g. \<not> too_small g) [face_of 30 [0, 0], face_of 50 [5, 5]])
            @ [EncodingsComputed (face_box (face_of 60 [1, 1 / 10])), MatchReported ''Bob'']
          = [EncodingsComputed (0, 50, 50, 0), EncodingsComputed (0, 60, 60, 0), MatchReported ''Bob'']"
    by code_simp
  from C8_first_match_wins[OF len pre big enc es1 i first, of "[face_of 70 [0, 0]]"] nm tr i i2 show ?thesis by simp
qed

text \<open>
  C9_no_match_is_false.  The matcher returns false, as a value and not as an exception, when the image is
  absent, when every detected box is narrower or lower than 40 pixels, and when no
  surviving face has an embedding within tolerance of a gallery entry.
\<close>

theorem C9_no_match_is_false:
  assumes "img = None
         \<or> (\<exists>locs. img = Some (Inr locs) \<and> (\<forall>g \<in> set locs. too_small g))
         \<or> (\<exists>locs. img = Some (Inr locs) \<and>
               (\<forall>g \<in> set locs. \<not> too_small g \<longrightarrow>
                  (\<forall>e \<in> set (box_encodings g). \<forall>k \<in> set known. \<not> within_tolerance k e (9 / 20))))"
  shows "fst (detect_known_faces_in_image img known names) = False"
proof -
  consider "img = None"
    | locs where "img = Some (Inr locs)"
        "\<forall>g \<in> set locs. too_small g \<or> (\<forall>e \<in> set (box_encodings g). \<forall>k \<in> set known. \<not> within_tolerance k e (9 / 20))"
    using assms by blast
  then show ?thesis
  proof cases
    case 1
    then show ?thesis by (simp add: detect_known_faces_in_image_def)
  next
    case 2
    from scan_face_locations_no_match[OF 2(2), where names=names and tr="[]"]
    show ?thesis using 2(1)
      by (cases "scan_face_locations known names locs []")
         (auto simp: detect_known_faces_in_image_def)
  qed
qed

theorem C9_no_match_is_false_witness:
  "fst (detect_known_faces_in_image None gallery_encodings gallery_names) = False
   \<and> fst (detect_known_faces_in_image (Some (Inr [face_of 30 [0, 0], face_of 39 [1, 0]]))
           gallery_encodings gallery_names) = False
   \<and> fst (detect_known_faces_in_image (Some (Inr [face_of 30 [0, 0], face_of 50 [5, 5]]))
           gallery_encodings gallery_names) = False"
proof -
  have s: "\<forall>g \<in> set [face_of 30 [0, 0], face_of 39 [1, 0]]. too_small g" by code_simp
  have n: "\<forall>g \<in> set [face_of 30 [0, 0], face_of 50 [5, 5]]. \<not> too_small g \<longrightarrow>
            (\<forall>e \<in> set (box_encodings g). \<forall>k \<in> set gallery_encodings. \<not> within_tolerance k e (9 / 20))"
    by code_simp
  from C9_no_match_is_false[of None gallery_encodings gallery_names]
  have A: "fst (detect_known_faces_in_image None gallery_encodings gallery_names) = False" by simp
  from C9_no_match_is_false[of "Some (Inr [face_of 30 [0, 0], face_of 39 [1, 0]])" gallery_encodings gallery_names] s
  have B: "fst (detect_known_faces_in_image (Some (Inr [face_of 30 [0, 0], face_of 39 [1, 0]]))
           gallery_encodings gallery_names) = False" by blast
  from C9_no_match_is_false[of "Some (Inr [face_of 30 [0, 0], face_of 50 [5, 5]])" gallery_encodings gallery_names] n
  have C: "fst (detect_known_faces_in_image (Some (Inr [face_of 30 [0, 0], face_of 50 [5, 5]]))
           gallery_encodings gallery_names) = False" by blast
  from A B C show ?thesis by blast
qed

section \<open>Properties of the gallery loader and of the run\<close>

lemma load_loop_spec:
  assumes "\<forall>(filename, content) \<in> set entries. is_image_name filename \<longrightarrow> (\<forall>e. content \<noteq> Inl e)"
  shows "load_loop entries (es, ns) = Inr (es @ fst (spec_gallery entries), ns @ snd (spec_gallery entries))"
  using assms
proof (induction entries arbitrary: es ns)
  case Nil
  then show ?case by (simp add: spec_gallery_def)
next
  case (Cons fc entries)
  obtain filename content where fc: "fc = (filename, content)" by (cases fc)
  from Cons.prems have rest: "\<forall>(filename, content) \<in> set entries. is_image_name filename \<longrightarrow> (\<forall>e. content \<noteq> Inl e)"
    by simp
  note IH = Cons.IH[OF rest]
  show ?case
  proof (cases "is_image_name filename")
    case False
    with fc IH show ?thesis by (simp add: spec_gallery_def)
  next
    case True
    with Cons.prems fc obtain encs where c: "content = Inr encs" by (cases content) auto
    show ?thesis
    proof (cases encs)
      case Nil
      with True fc c IH show ?thesis by (simp add: spec_gallery_def)
    next
      case (Cons e es')
      with True fc c IH show ?thesis by (simp add: spec_gallery_def)
    qed
  qed
qed

lemma spec_gallery_empty:
  assumes "\<forall>(filename, content) \<in> set entries. is_image_name filename \<longrightarrow> content = Inr []"
  shows "spec_gallery entries = ([], [])"
  using assms by (induction entries) (auto simp: spec_gallery_def)

lemma load_known_faces_empty:
  assumes "d = None \<or> (\<exists>entries. d = Some entries \<and>
             (\<forall>(filename, content) \<in> set entries. is_image_name filename \<longrightarrow> content = Inr []))"
  shows "load_known_faces d = Inr ([], [])"
proof (cases d)
  case None
  then show ?thesis by (simp add: load_known_faces_def)
next
  case (Some entries)
  with assms have e: "\<forall>(filename, content) \<in> set entries. is_image_name filename \<longrightarrow> content = Inr []"
    by simp
  then have "\<forall>(filename, content) \<in> set entries. is_image_name filename \<longrightarrow> (\<forall>e. content \<noteq> Inl e)"
    by auto
  from load_loop_spec[OF this, of "[]" "[]"] spec_gallery_empty[OF e] Some
  show ?thesis by (simp add: load_known_faces_def)
qed

text \<open>
  C7_empty_gallery_stops_run.  If the directory of known faces is missing or holds no usable image, the loader
  returns the empty gallery and \<open>main\<close> ends with the error that there are no known faces:
  no video is processed, no result is written and the files are untouched.  Otherwise
  (no image file failing to load) the gallery is the complete one, built before the loop
  over the videos, and every video is processed with it.
\<close>

theorem C7_empty_gallery_stops_run:
  "((listdir E ''known_faces'' = None
      \<or> (\<exists>entries. listdir E ''known_faces'' = Some entries \<and>
            (\<forall>(filename, content) \<in> set entries. is_image_name filename \<longrightarrow> content = Inr [])))
     \<longrightarrow> load_known_faces (listdir E ''known_faces'') = Inr ([], [])
         \<and> main E json_file fs = Some (Inr NoKnownFaces, fs))
   \<and> (listdir E ''known_faces'' = Some entries
        \<and> (\<forall>(filename, content) \<in> set entries. is_image_name filename \<longrightarrow> (\<forall>e. content \<noteq> Inl e))
        \<and> fst (spec_gallery entries) \<noteq> []
        \<and> json_load E json_file = Inr videos
     \<longrightarrow> load_known_faces (listdir E ''known_faces'') = Inr (spec_gallery entries)
         \<and> main E json_file fs =
             (case process_all E videos (mkdtemp E) (fst (spec_gallery entries))
                     (snd (spec_gallery entries)) fs [] of
                None \<Rightarrow> None
              | Some (Inl e, fs') \<Rightarrow> Some (Inr (Failed e), rmtree (mkdtemp E) fs')
              | Some (Inr results, fs') \<Rightarrow> Some (Inr (Saved results), rmtree (mkdtemp E) fs')))"
proof -
  have A: "(listdir E ''known_faces'' = None
      \<or> (\<exists>entries. listdir E ''known_faces'' = Some entries \<and>
            (\<forall>(filename, content) \<in> set entries. is_image_name filename \<longrightarrow> content = Inr [])))
     \<longrightarrow> load_known_faces (listdir E ''known_faces'') = Inr ([], [])
         \<and> main E json_file fs = Some (Inr NoKnownFaces, fs)"
  proof
    assume "listdir E ''known_faces'' = None
      \<or> (\<exists>entries. listdir E ''known_faces'' = Some entries \<and>
            (\<forall>(filename, content) \<in> set entries. is_image_name filename \<longrightarrow> content = Inr []))"
    from load_known_faces_empty[OF this]
    show "load_known_faces (listdir E ''known_faces'') = Inr ([], [])
         \<and> main E json_file fs = Some (Inr NoKnownFaces, fs)"
      by (simp add: main_def)
  qed
  have B: "listdir E ''known_faces'' = Some entries
        \<and> (\<forall>(filename, content) \<in> set entries. is_image_name filename \<longrightarrow> (\<forall>e. content \<noteq> Inl e))
        \<and> fst (spec_gallery entries) \<noteq> []
        \<and> json_load E json_file = Inr videos
     \<longrightarrow> load_known_faces (listdir E ''known_faces'') = Inr (spec_gallery entries)
         \<and> main E json_file fs =
             (case process_all E videos (mkdtemp E) (fst (spec_gallery entries))
                     (snd (spec_gallery entries)) fs [] of
                None \<Rightarrow> None
              | Some (Inl e, fs') \<Rightarrow> Some (Inr (Failed e), rmtree (mkdtemp E) fs')
              | Some (Inr results, fs') \<Rightarrow> Some (Inr (Saved results), rmtree (mkdtemp E) fs'))"
  proof
    assume H: "listdir E ''known_faces'' = Some entries
        \<and> (\<forall>(filename, content) \<in> set entries. is_image_name filename \<longrightarrow> (\<forall>e. content \<noteq> Inl e))
        \<and> fst (spec_gallery entries) \<noteq> []
        \<and> json_load E json_file = Inr videos"
    then have l: "load_known_faces (listdir E ''known_faces'') = Inr (spec_gallery entries)"
      using load_loop_spec[of entries "[]" "[]"] by (simp add: load_known_faces_def)
    obtain g n where gn: "spec_gallery entries = (g, n)" by (cases "spec_gallery entries")
    with H l show "load_known_faces (listdir E ''known_faces'') = Inr (spec_gallery entries)
         \<and> main E json_file fs =
             (case process_all E videos (mkdtemp E) (fst (spec_gallery entries))
                     (snd (spec_gallery entries)) fs [] of
                None \<Rightarrow> None
              | Some (Inl e, fs') \<Rightarrow> Some (Inr (Failed e), rmtree (mkdtemp E) fs')
              | Some (Inr results, fs') \<Rightarrow> Some (Inr (Saved results), rmtree (mkdtemp E) fs'))"
      by (simp add: main_def Let_def)
  qed
  from A B show ?thesis by blast
qed

theorem C7_empty_gallery_stops_run_witness:
  "listdir env_no_dir ''known_faces'' = None
   \<and> main env_no_dir ''videos.json'' files0 = Some (Inr NoKnownFaces, files0)
   \<and> listdir env_blank_dir ''known_faces'' = Some [(''notes.txt'', Inr [[9, 9]]), (''blank.jpeg'', Inr [])]
   \<and> main env_blank_dir ''videos.json'' files0 = Some (Inr NoKnownFaces, files0)
   \<and> listdir env_ok ''known_faces'' = Some gallery_dir
   \<and> spec_gallery gallery_dir = (gallery_encodings, gallery_names)
   \<and> json_load env_ok ''videos.json'' = Inr [video_no_id, video_a]
   \<and> load_known_faces (listdir env_ok ''known_faces'') = Inr (gallery_encodings, gallery_names)"
proof -
  have a: "listdir env_no_dir ''known_faces'' = None"
    by (simp add: env_no_dir_def)
  have b: "listdir env_blank_dir ''known_faces'' = Some [(''notes.txt'', Inr [[9, 9]]), (''blank.jpeg'', Inr [])]"
    by (simp add: env_blank_dir_def)
  have b': "\<forall>(filename, content) \<in> set [(''notes.txt'', Inr [[9, 9]]), (''blank.jpeg'', Inr [])].
              is_image_name filename \<longrightarrow> content = (Inr [] :: exn + encoding list)"
    by code_simp
  have c: "listdir env_ok ''known_faces'' = Some gallery_dir"
    by (simp add: env_ok_def)
  have c1: "\<forall>(filename, content) \<in> set gallery_dir. is_image_name filename \<longrightarrow> (\<forall>e. content \<noteq> Inl e)"
    by (simp add: gallery_dir_def)
  have c2: "spec_gallery gallery_dir = (gallery_encodings, gallery_names)"
    by code_simp
  have c3: "fst (spec_gallery gallery_dir) \<noteq> []"
    by code_simp
  have c4: "json_load env_ok ''videos.json'' = Inr [video_no_id, video_a]"
    by (simp add: env_ok_def)
  from C7_empty_gallery_stops_run[of env_no_dir "''videos.json''" files0] a
  have A: "main env_no_dir ''videos.json'' files0 = Some (Inr NoKnownFaces, files0)" by blast
  from C7_empty_gallery_stops_run[of env_blank_dir "''videos.json''" files0] b b'
  have B: "main env_blank_dir ''videos.json'' files0 = Some (Inr NoKnownFaces, files0)" by blast
  from C7_empty_gallery_stops_run[of env_ok "''videos.json''" files0 gallery_dir "[video_no_id, video_a]"] c c1 c3 c4
  have C: "load_known_faces (listdir env_ok ''known_faces'') = Inr (spec_gallery gallery_dir)" by blast
  from a A b B c c2 c4 C show ?thesis by simp
qed

section \<open>Properties of the orchestrator\<close>

lemma os_path_join_nonempty: "b \<noteq> [] \<Longrightarrow> os_path_join a b \<noteq> []"
  by (simp add: os_path_join_def)

lemma download_attempts_Some:
  "download_attempts E vid temp_dir as fs = (Some p, fs1) \<Longrightarrow>
     p = os_path_join temp_dir (vid @ ''.mp4'') \<and> p \<in> fs1"
proof (induction as arbitrary: fs)
  case Nil
  then show ?case by simp
next
  case (Cons a as)
  then show ?case
    by (auto simp: Let_def split: if_splits)
qed

lemma download_video_Some:
  assumes "download_video E vid temp_dir n fs = (Some p, fs1)"
  shows "p \<noteq> [] \<and> p \<in> fs1"
  using download_attempts_Some[OF assms[unfolded download_video_def]]
  by (auto simp: os_path_join_nonempty)

lemma process_video_try_result:
  assumes info: "get_video_and_channel_info E vid cid 3 = Inr (t, a)"
    and run: "process_video_try E vid cid temp_dir known names fs = Some (x, fs')"
  shows "x = Inr \<lparr>video_id = vid,
                  has_known_face_in_thumbnail = image_surface_check E t known names,
                  has_known_face_in_avatar = image_surface_check E a known names,
                  has_known_face_in_video = video_frame_check E vid temp_dir known names fs\<rparr>
         \<and> fs' = files_after_video E vid temp_dir fs"
proof (cases "download_video E vid temp_dir 3 fs")
  case (Pair po fs1)
  show ?thesis
  proof (cases po)
    case None
    with Pair info run show ?thesis
      by (auto simp: process_video_try_def image_surface_check_def video_frame_check_def
            files_after_video_def Let_def)
  next
    case (Some p)
    from download_video_Some[OF Pair[unfolded Some]] have p: "p \<noteq> []" "p \<in> fs1" by simp_all
    show ?thesis
    proof (cases "extract_frames (open_video E p) (5 / 2) (1 / 4)")
      case None
      with Pair Some info run p show ?thesis
        by (simp add: process_video_try_def Let_def)
    next
      case (Some ft)
      obtain frs tss where ft: "ft = (frs, tss)" by (cases ft)
      from Pair \<open>po = Some p\<close> info run p Some ft show ?thesis
        by (auto simp: process_video_try_def image_surface_check_def video_frame_check_def
              files_after_video_def os_remove_def Let_def)
    qed
  qed
qed

lemma process_video_try_returns:
  assumes info: "get_video_and_channel_info E vid cid 3 = Inr (t, a)"
    and fi: "\<And>p fs1. download_video E vid temp_dir 3 fs = (Some p, fs1) \<Longrightarrow>
                1 \<le> py_int (cap_fps (open_video E p) * (5 / 2))"
  shows "\<exists>r. process_video_try E vid cid temp_dir known names fs = Some r"
proof (cases "download_video E vid temp_dir 3 fs")
  case (Pair po fs1)
  show ?thesis
  proof (cases po)
    case None
    with Pair info show ?thesis by (simp add: process_video_try_def Let_def)
  next
    case (Some p)
    from fi[OF Pair[unfolded Some]] extract_frames_terminates
    obtain ft where "extract_frames (open_video E p) (5 / 2) (1 / 4) = Some ft" by blast
    with Pair Some info show ?thesis
      by (cases ft) (auto simp: process_video_try_def Let_def split: sum.splits)
  qed
qed

lemma process_video_of_try:
  assumes "v ''video_id'' = Some vid" "v ''channel_id'' = Some cid"
  shows "process_video E v temp_dir known names fs =
     (case process_video_try E vid cid temp_dir known names fs of
        None \<Rightarrow> None
      | Some (Inl e, fs') \<Rightarrow>
          Some (Inr \<lparr>video_id = vid, has_known_face_in_thumbnail = False,
                     has_known_face_in_avatar = False, has_known_face_in_video = False\<rparr>, fs')
      | Some (Inr result, fs') \<Rightarrow> Some (Inr result, fs'))"
  using assms by (simp add: process_video_def)

lemma info_attempts_exhausted:
  "\<forall>a \<in> set as. info_attempt E vid cid a = Inl HttpError \<Longrightarrow>
     info_attempts E vid cid as = Inr ([], [])"
  by (induction as) simp_all

text \<open>
  C1_temp_file_removed.  When the download of a video succeeds, the downloaded file is gone from the file
  system whenever \<open>process_video\<close> returns, whatever the frame scan and the frame matcher
  do (a match, no match, or an exception, which both catch themselves); and
  \<open>process_video\<close> does return when the step of the scan is at least one frame.
\<close>

theorem C1_temp_file_removed:
  assumes "v ''video_id'' = Some vid" "v ''channel_id'' = Some cid"
    and info: "get_video_and_channel_info E vid cid 3 = Inr urls"
    and dl: "download_video E vid temp_dir 3 fs = (Some path, fs1)"
  shows "(\<forall>x fs'. process_video E v temp_dir known names fs = Some (x, fs') \<longrightarrow>
            path \<notin> fs' \<and> fs' = fs1 - {path})
       \<and> (1 \<le> py_int (cap_fps (open_video E path) * (5 / 2)) \<longrightarrow>
            (\<exists>r. process_video E v temp_dir known names fs = Some r))"
proof -
  obtain t a where urls: "urls = (t, a)" by (cases urls)
  have A: "\<forall>x fs'. process_video E v temp_dir known names fs = Some (x, fs') \<longrightarrow>
            path \<notin> fs' \<and> fs' = fs1 - {path}"
  proof (intro allI impI)
    fix x fs'
    assume pv: "process_video E v temp_dir known names fs = Some (x, fs')"
    then obtain y where "process_video_try E vid cid temp_dir known names fs = Some (y, fs')"
      using assms(1,2)
      by (auto simp: process_video_of_try split: option.splits sum.splits prod.splits)
    from process_video_try_result[OF info[unfolded urls] this] dl
    have "fs' = fs1 - {path}" by (simp add: files_after_video_def)
    then show "path \<notin> fs' \<and> fs' = fs1 - {path}" by simp
  qed
  have B: "1 \<le> py_int (cap_fps (open_video E path) * (5 / 2)) \<longrightarrow>
            (\<exists>r. process_video E v temp_dir known names fs = Some r)"
  proof
    assume fi: "1 \<le> py_int (cap_fps (open_video E path) * (5 / 2))"
    have "\<exists>r. process_video_try E vid cid temp_dir known names fs = Some r"
      using fi dl by (intro process_video_try_returns[OF info[unfolded urls]]) simp
    then show "\<exists>r. process_video E v temp_dir known names fs = Some r"
      using assms(1,2) by (auto simp: process_video_of_try split: sum.splits)
  qed
  from A B show ?thesis by blast
qed

theorem C1_temp_file_removed_witness:
  "video_bad ''video_id'' = Some ''bad'' \<and> video_bad ''channel_id'' = Some ''ch''
   \<and> get_video_and_channel_info env_ok ''bad'' ''ch'' 3 = Inr (''thumb'', ''avatar'')
   \<and> download_video env_ok ''bad'' ''/tmp/t'' 3 files0 = (Some ''/tmp/t/bad.mp4'', insert ''/tmp/t/bad.mp4'' files0)
   \<and> process_video env_ok video_bad ''/tmp/t'' gallery_encodings gallery_names files0
        = Some (Inr \<lparr>video_id = ''bad'', has_known_face_in_thumbnail = False,
                       has_known_face_in_avatar = True, has_known_face_in_video = False\<rparr>, files0)
   \<and> ''/tmp/t/bad.mp4'' \<notin> files0
   \<and> 1 \<le> py_int (cap_fps (open_video env_ok ''/tmp/t/bad.mp4'') * (5 / 2))"
proof -
  have h0: "1 \<le> py_int (cap_fps (open_video env_ok ''/tmp/t/bad.mp4'') * (5 / 2))"
    by code_simp
  have h1: "video_bad ''video_id'' = Some ''bad''" by (simp add: video_bad_def)
  have h2: "video_bad ''channel_id'' = Some ''ch''" by (simp add: video_bad_def)
  have h3: "get_video_and_channel_info env_ok ''bad'' ''ch'' 3 = Inr (''thumb'', ''avatar'')"
    by code_simp
  have h4: "download_video env_ok ''bad'' ''/tmp/t'' 3 files0
              = (Some ''/tmp/t/bad.mp4'', insert ''/tmp/t/bad.mp4'' files0)"
    by code_simp
  have pv: "process_video env_ok video_bad ''/tmp/t'' gallery_encodings gallery_names files0
        = Some (Inr \<lparr>video_id = ''bad'', has_known_face_in_thumbnail = False,
                       has_known_face_in_avatar = True, has_known_face_in_video = False\<rparr>, files0)"
    by code_simp
  from C1_temp_file_removed[OF h1 h2 h3 h4, of gallery_encodings gallery_names] pv
  have "''/tmp/t/bad.mp4'' \<notin> files0" by blast
  with h0 h1 h2 h3 h4 pv show ?thesis by blast
qed

text \<open>
  C2_failure_isolated (as amended).  For a video record that has its \<open>video_id\<close> and \<open>channel_id\<close>
  fields, \<open>process_video\<close> raises nothing: whatever the \<open>try\<close> block ends with, a
  result for that video is returned, with all three booleans false when the block raised,
  and the loop of \<open>main\<close> goes on with the remaining videos.
\<close>

theorem C2_failure_isolated:
  assumes f: "v ''video_id'' = Some vid" "v ''channel_id'' = Some cid"
    and t: "process_video_try E vid cid temp_dir known names fs = Some (x, fs')"
  shows "\<exists>r. process_video E v temp_dir known names fs = Some (Inr r, fs')
            \<and> video_id r = vid
            \<and> ((\<exists>e. x = Inl e) \<longrightarrow> \<not> has_known_face_in_thumbnail r
                  \<and> \<not> has_known_face_in_avatar r \<and> \<not> has_known_face_in_video r)
            \<and> process_all E (v # rest) temp_dir known names fs results
                = process_all E rest temp_dir known names fs' (results @ [r])"
proof (cases x)
  case (Inl e)
  with f t show ?thesis by (simp add: process_video_of_try)
next
  case (Inr r)
  show ?thesis
  proof (cases "get_video_and_channel_info E vid cid 3")
    case (Inl e)
    with t Inr show ?thesis by (simp add: process_video_try_def)
  next
    case info: (Inr urls)
    obtain tu au where "urls = (tu, au)" by (cases urls)
    from process_video_try_result[OF info[unfolded this] t] Inr have "video_id r = vid" by simp
    with f t Inr show ?thesis by (simp add: process_video_of_try)
  qed
qed

theorem C2_failure_isolated_witness:
  "video_a ''video_id'' = Some ''a'' \<and> video_a ''channel_id'' = Some ''ch''
   \<and> process_video_try env_no_items ''a'' ''ch'' ''/tmp/t'' gallery_encodings gallery_names files0
        = Some (Inl IndexError, files0)
   \<and> (\<exists>r. process_video env_no_items video_a ''/tmp/t'' gallery_encodings gallery_names files0
              = Some (Inr r, files0)
          \<and> \<not> has_known_face_in_thumbnail r \<and> \<not> has_known_face_in_avatar r
          \<and> \<not> has_known_face_in_video r
          \<and> process_all env_no_items [video_a, video_bad] ''/tmp/t'' gallery_encodings
                gallery_names files0 []
              = process_all env_no_items [video_bad] ''/tmp/t'' gallery_encodings gallery_names
                  files0 ([] @ [r]))"
proof -
  have h1: "video_a ''video_id'' = Some ''a''" by (simp add: video_a_def)
  have h2: "video_a ''channel_id'' = Some ''ch''" by (simp add: video_a_def)
  have h3: "process_video_try env_no_items ''a'' ''ch'' ''/tmp/t'' gallery_encodings gallery_names
              files0 = Some (Inl IndexError, files0)"
    by code_simp
  from C2_failure_isolated[OF h1 h2 h3, of "[video_bad]" "[]"] h1 h2 h3 show ?thesis by blast
qed

text \<open>
  A record without \<open>video_id\<close>: the \<open>KeyError\<close> leaves \<open>process_video\<close>, and a run over
  this record followed by a well-formed one ends in the handler of \<open>main\<close> with no result
  written.
\<close>

theorem C2_missing_field_counterexample:
  "process_video env_ok video_no_id ''/tmp/t'' gallery_encodings gallery_names files0
     = Some (Inl KeyError, files0)
   \<and> json_load env_ok ''videos.json'' = Inr [video_no_id, video_a]
   \<and> main env_ok ''videos.json'' files0 = Some (Inr (Failed KeyError), files0)"
proof -
  have a: "process_video env_ok video_no_id ''/tmp/t'' gallery_encodings gallery_names files0
     = Some (Inl KeyError, files0)" by code_simp
  have b: "json_load env_ok ''videos.json'' = Inr [video_no_id, video_a]"
    by (simp add: env_ok_def)
  have c: "main env_ok ''videos.json'' files0 = Some (Inr (Failed KeyError), files0)"
    by code_simp
  from a b c show ?thesis by blast
qed

text \<open>
  C5_checks_independent.  When the metadata are resolved and \<open>process_video\<close> returns, each of the three
  booleans of its result is the verdict of its own check: the thumbnail check on the
  thumbnail URL, the avatar check on the avatar URL, the video-frame check on the video.
  None depends on the outcome of another.
\<close>

theorem C5_checks_independent:
  assumes "v ''video_id'' = Some vid" "v ''channel_id'' = Some cid"
    and info: "get_video_and_channel_info E vid cid 3 = Inr (thumbnail_url, avatar_url)"
    and pv: "process_video E v temp_dir known names fs = Some (x, fs')"
  shows "x = Inr \<lparr>video_id = vid,
                  has_known_face_in_thumbnail = image_surface_check E thumbnail_url known names,
                  has_known_face_in_avatar = image_surface_check E avatar_url known names,
                  has_known_face_in_video = video_frame_check E vid temp_dir known names fs\<rparr>"
proof -
  from pv obtain y where y: "process_video_try E vid cid temp_dir known names fs = Some (y, fs')"
    using assms(1,2)
    by (auto simp: process_video_of_try split: option.splits sum.splits prod.splits)
  from process_video_try_result[OF info y] y pv assms(1,2) show ?thesis
    by (simp add: process_video_of_try)
qed

theorem C5_checks_independent_witness:
  "video_a ''video_id'' = Some ''a'' \<and> video_a ''channel_id'' = Some ''ch''
   \<and> get_video_and_channel_info env_ok ''a'' ''ch'' 3 = Inr (''thumb'', ''avatar'')
   \<and> process_video env_ok video_a ''/tmp/t'' gallery_encodings gallery_names files0
        = Some (Inr \<lparr>video_id = ''a'', has_known_face_in_thumbnail = False,
                       has_known_face_in_avatar = True, has_known_face_in_video = False\<rparr>, files0)
   \<and> \<not> image_surface_check env_ok ''thumb'' gallery_encodings gallery_names
   \<and> image_surface_check env_ok ''avatar'' gallery_encodings gallery_names
   \<and> \<not> video_frame_check env_ok ''a'' ''/tmp/t'' gallery_encodings gallery_names files0"
proof -
  have h1: "video_a ''video_id'' = Some ''a''" by (simp add: video_a_def)
  have h2: "video_a ''channel_id'' = Some ''ch''" by (simp add: video_a_def)
  have h3: "get_video_and_channel_info env_ok ''a'' ''ch'' 3 = Inr (''thumb'', ''avatar'')"
    by code_simp
  have pv: "process_video env_ok video_a ''/tmp/t'' gallery_encodings gallery_names files0
        = Some (Inr \<lparr>video_id = ''a'', has_known_face_in_thumbnail = False,
                       has_known_face_in_avatar = True, has_known_face_in_video = False\<rparr>, files0)"
    by code_simp
  from C5_checks_independent[OF h1 h2 h3 pv] h1 h2 h3 pv show ?thesis by simp
qed

text \<open>
  C10_metadata_exhaustion (as amended).  When every attempt of the metadata resolution fails with
  \<open>HttpError\<close>, whichever of the two requests failed, both URLs are treated as empty: the
  thumbnail check and the avatar check are both skipped and the video is not failed, its
  video-frame check being made as usual.
\<close>

theorem C10_metadata_exhaustion:
  assumes "v ''video_id'' = Some vid" "v ''channel_id'' = Some cid"
    and ex: "\<forall>a<3. info_attempt E vid cid a = Inl HttpError"
    and pv: "process_video E v temp_dir known names fs = Some (x, fs')"
  shows "get_video_and_channel_info E vid cid 3 = Inr ([], [])
       \<and> x = Inr \<lparr>video_id = vid, has_known_face_in_thumbnail = False,
                    has_known_face_in_avatar = False,
                    has_known_face_in_video = video_frame_check E vid temp_dir known names fs\<rparr>"
proof -
  have info: "get_video_and_channel_info E vid cid 3 = Inr ([], [])"
    unfolding get_video_and_channel_info_def using ex
    by (intro info_attempts_exhausted) simp
  from pv obtain y where y: "process_video_try E vid cid temp_dir known names fs = Some (y, fs')"
    using assms(1,2)
    by (auto simp: process_video_of_try split: option.splits sum.splits prod.splits)
  from process_video_try_result[OF info y] y pv assms(1,2) info show ?thesis
    by (simp add: process_video_of_try image_surface_check_def)
qed

theorem C10_metadata_exhaustion_witness:
  "video_a ''video_id'' = Some ''a'' \<and> video_a ''channel_id'' = Some ''ch''
   \<and> info_attempt env_channel_down ''a'' ''ch'' 0 = Inl HttpError
   \<and> info_attempt env_channel_down ''a'' ''ch'' 1 = Inl HttpError
   \<and> info_attempt env_channel_down ''a'' ''ch'' 2 = Inl HttpError
   \<and> process_video env_channel_down video_a ''/tmp/t'' gallery_encodings gallery_names files0
        = Some (Inr \<lparr>video_id = ''a'', has_known_face_in_thumbnail = False,
                       has_known_face_in_avatar = False, has_known_face_in_video = False\<rparr>, files0)
   \<and> get_video_and_channel_info env_channel_down ''a'' ''ch'' 3 = Inr ([], [])
   \<and> \<not> video_frame_check env_channel_down ''a'' ''/tmp/t'' gallery_encodings gallery_names files0"
proof -
  have h1: "video_a ''video_id'' = Some ''a''" by (simp add: video_a_def)
  have h2: "video_a ''channel_id'' = Some ''ch''" by (simp add: video_a_def)
  have h3: "\<forall>a<3. info_attempt env_channel_down ''a'' ''ch'' a = Inl HttpError"
    by (simp add: info_attempt_def env_channel_down_def env_ok_def high_url_def)
  have pv: "process_video env_channel_down video_a ''/tmp/t'' gallery_encodings gallery_names files0
        = Some (Inr \<lparr>video_id = ''a'', has_known_face_in_thumbnail = False,
                       has_known_face_in_avatar = False, has_known_face_in_video = False\<rparr>, files0)"
    by code_simp
  from C10_metadata_exhaustion[OF h1 h2 h3 pv] h1 h2 h3 pv show ?thesis by simp
qed

text \<open>
  The channel request fails on every attempt while the video request succeeds every time:
  the thumbnail URL is dropped with the avatar URL, and the thumbnail, which shows a known
  face, is not checked.
\<close>

theorem C10_urls_not_independent_counterexample:
  "videos_list env_channel_down ''a'' 0 = Inr [Thumbnails (Some ''thumb'')]
   \<and> videos_list env_channel_down ''a'' 1 = Inr [Thumbnails (Some ''thumb'')]
   \<and> videos_list env_channel_down ''a'' 2 = Inr [Thumbnails (Some ''thumb'')]
   \<and> get_video_and_channel_info env_channel_down ''a'' ''ch'' 3 = Inr ([], [])
   \<and> image_surface_check env_channel_down ''thumb'' gallery_encodings gallery_names
   \<and> process_video env_channel_down video_a ''/tmp/t'' gallery_encodings gallery_names files0
        = Some (Inr \<lparr>video_id = ''a'', has_known_face_in_thumbnail = False,
                       has_known_face_in_avatar = False, has_known_face_in_video = False\<rparr>, files0)"
  by code_simp

end
